theory Spec2Isabelle
  imports Complex_Main
begin

unbundle bit_operations_syntax

section \<open>Values shared by the three entry points of \<^verbatim>\<open>detecto/visualize.py\<close>\<close>

text \<open>
  Tensor and float arithmetic is modelled exactly, over the rationals: the source computes
  with 32-bit tensor elements and Python floats, and rounding is not part of this model.
\<close>

type_synonym scalar = rat

text \<open>
  The exceptions of this layer and of the calls it makes: the \<^verbatim>\<open>ValueError\<close> raised by
  \<^verbatim>\<open>plot_prediction_grid\<close> and the one raised by \<^verbatim>\<open>plt.subplots\<close> (told apart by
  the calls made before it), the \<^verbatim>\<open>RuntimeError\<close> of \<^verbatim>\<open>Tensor.view\<close> on
  a shape that does not fit, the \<^verbatim>\<open>IndexError\<close> of an index out of range, and
  \<open>DetectorError\<close> for whatever exception a detector call raises: this layer catches
  nothing, so that exception leaves the function that made the call.
\<close>

datatype error = ValueError | RuntimeError | IndexError | DetectorError

text \<open>
  An image is a caller-supplied tensor or array, or the result of one of the pure library
  conversions the source applies to it before display.
\<close>

datatype image =
    Tensor_image nat
  | Array_image nat
  | Reverse_normalize image
  | To_PIL image

fun is_tensor :: "image \<Rightarrow> bool" where
  "is_tensor (Tensor_image _) = True"
| "is_tensor (Reverse_normalize _) = True"
| "is_tensor _ = False"

text \<open>
  \<^verbatim>\<open>patches.Rectangle(initial_pos, width, height, ...)\<close>: anchor, width and height.
\<close>

datatype patch = Rectangle "scalar \<times> scalar" scalar scalar

text \<open>
  The axes object an overlay is drawn on: \<^verbatim>\<open>axes\<close>, \<^verbatim>\<open>axes[k]\<close> or
  \<^verbatim>\<open>axes[i, j]\<close>.
\<close>

datatype axes_ref = Axes | Axes_at int | Axes_at2 int int

text \<open>
  The calls to the plotting library and to the detector, in the order the source makes
  them. A function of this layer returns the calls it made and the exception it raised,
  if any.
\<close>

datatype plot_event =
    Subplots int int
  | Predict_top_call image
  | Predict_call image
  | Imshow axes_ref image
  | Add_patch axes_ref patch
  | Text axes_ref scalar scalar string scalar
  | Set_title axes_ref nat
  | Show

fun patches_drawn :: "plot_event list \<Rightarrow> patch list" where
  "patches_drawn [] = []"
| "patches_drawn (Add_patch ax p # evs) = p # patches_drawn evs"
| "patches_drawn (_ # evs) = patches_drawn evs"

section \<open>\<^verbatim>\<open>show_labeled_image\<close>\<close>

text \<open>
  The \<^verbatim>\<open>boxes\<close> argument: a 1-dimensional tensor (\<^verbatim>\<open>boxes.ndim == 1\<close>) or a
  2-dimensional one, given by its rows (the docstring: size \<^verbatim>\<open>(N, 4)\<close>, or simply
  size 4).
\<close>

datatype tensor = Vec "scalar list" | Mat "scalar list list"

text \<open>\<^verbatim>\<open>boxes.view(1, 4)\<close> on a 1-dimensional tensor: it needs exactly four elements.\<close>

definition view_1_4 :: "scalar list \<Rightarrow> error + scalar list list" where
  "view_1_4 xs = (if length xs = 4 then Inr [xs] else Inl RuntimeError)"

text \<open>\<^verbatim>\<open>box[i]\<close> for a constant index \<open>i\<close>.\<close>

definition item_at :: "scalar list \<Rightarrow> nat \<Rightarrow> error + scalar" where
  "item_at box i = (if i < length box then Inr (box ! i) else Inl IndexError)"

text \<open>
  The body of the loop over the boxes, up to \<^verbatim>\<open>patches.Rectangle\<close>: the four reads
  in the order the source evaluates them; each fails with \<^verbatim>\<open>IndexError\<close>.
\<close>

definition box_patch :: "scalar list \<Rightarrow> error + patch" where
  "box_patch box =
     (case item_at box 2 of Inl e \<Rightarrow> Inl e | Inr b2 \<Rightarrow>
     (case item_at box 0 of Inl e \<Rightarrow> Inl e | Inr b0 \<Rightarrow>
     (case item_at box 3 of Inl e \<Rightarrow> Inl e | Inr b3 \<Rightarrow>
     (case item_at box 1 of Inl e \<Rightarrow> Inl e | Inr b1 \<Rightarrow>
        Inr (Rectangle (b0, b1) (b2 - b0) (b3 - b1))))))"

fun plot_boxes :: "scalar list list \<Rightarrow> plot_event list \<times> error option" where
  "plot_boxes [] = ([], None)"
| "plot_boxes (box # boxes) =
     (case box_patch box of
        Inl e \<Rightarrow> ([], Some e)
      | Inr rect \<Rightarrow>
          (case plot_boxes boxes of (evs, r) \<Rightarrow> (Add_patch Axes rect # evs, r)))"

definition show_labeled_image :: "image \<Rightarrow> tensor \<Rightarrow> plot_event list \<times> error option" where
  "show_labeled_image img boxes =
     (let shown = (if is_tensor img then To_PIL img else img);
          start = [Subplots 1 1, Imshow Axes shown]
      in case (case boxes of Vec xs \<Rightarrow> view_1_4 xs | Mat rows \<Rightarrow> Inr rows) of
           Inl e \<Rightarrow> (start, Some e)
         | Inr rows \<Rightarrow>
             (case plot_boxes rows of
                (evs, Some e) \<Rightarrow> (start @ evs, Some e)
              | (evs, None) \<Rightarrow> (start @ evs @ [Show], None)))"

text \<open>The rectangle the source computes for a box of four coordinates.\<close>

definition rect_of :: "scalar list \<Rightarrow> patch" where
  "rect_of box = Rectangle (box ! 0, box ! 1) (box ! 2 - box ! 0) (box ! 3 - box ! 1)"

section \<open>The detector\<close>

text \<open>
  A box as the detector returns it: one row \<^verbatim>\<open>(x_min, y_min, x_max, y_max)\<close> of the
  boxes tensor; \<^verbatim>\<open>box[0]\<close> to \<^verbatim>\<open>box[3]\<close> are its four fields.
\<close>

datatype box = Box (x_min: scalar) (y_min: scalar) (x_max: scalar) (y_max: scalar)

text \<open>
  A detection call returns the tuple \<^verbatim>\<open>(labels, boxes, scores)\<close>, or raises
  (\<open>None\<close>). The detector (\<^verbatim>\<open>detecto.core.Model\<close>) is a parameter of the functions
  that call it, with its two methods.
\<close>

type_synonym predictions = "string list \<times> box list \<times> scalar list"

record 'a detector =
  predict :: "'a \<Rightarrow> predictions option"
  predict_top :: "'a \<Rightarrow> predictions option"

text \<open>\<^verbatim>\<open>zip(*predictions)\<close>: it stops at the shortest of the three sequences.\<close>

fun zip_preds :: "predictions \<Rightarrow> (string \<times> box \<times> scalar) list" where
  "zip_preds (labels, boxes, scores) = zip labels (zip boxes scores)"

text \<open>
  \<^verbatim>\<open>round(score.item(), 2)\<close>: Python rounds to the nearest multiple of 1/100, a tie to
  the even one.
\<close>

definition round2 :: "scalar \<Rightarrow> scalar" where
  "round2 x =
     (let y = x * 100; n = \<lfloor>y\<rfloor>; d = y - of_int n
      in (if d < 1 / 2 then of_int n
          else if 1 / 2 < d then of_int (n + 1)
          else if even n then of_int n else of_int (n + 1)) / 100)"

section \<open>\<^verbatim>\<open>plot_prediction_grid\<close>\<close>

text \<open>\<^verbatim>\<open>range(n)\<close> for a Python integer: empty when \<open>n \<le> 0\<close>.\<close>

definition range_py :: "int \<Rightarrow> int list" where
  "range_py n = map int [0 ..< nat n]"

text \<open>The chain of \<^verbatim>\<open>if\<close>/\<^verbatim>\<open>elif\<close> that picks the axes of cell \<open>(i, j)\<close>.\<close>

definition select_axes :: "int \<times> int \<Rightarrow> int \<Rightarrow> int \<Rightarrow> axes_ref" where
  "select_axes dims i j =
     (if fst dims \<le> 1 \<and> snd dims \<le> 1 then Axes
      else if fst dims \<le> 1 then Axes_at j
      else if snd dims \<le> 1 then Axes_at i
      else Axes_at2 i j)"

text \<open>
  The loop over the predictions of one image. \<^verbatim>\<open>ax.set_title\<close> is the last statement
  of the body of this loop.
\<close>

fun plot_predictions :: "axes_ref \<Rightarrow> nat \<Rightarrow> (string \<times> box \<times> scalar) list \<Rightarrow> plot_event list" where
  "plot_predictions ax index [] = []"
| "plot_predictions ax index ((label, box, score) # rest) =
     [Add_patch ax (Rectangle (x_min box, y_min box) (x_max box - x_min box) (y_max box - y_min box)),
      Text ax (x_min box + 5) (y_min box - 10) label (round2 score),
      Set_title ax index]
     @ plot_predictions ax index rest"

text \<open>What \<^verbatim>\<open>ax.imshow\<close> receives for an image of the collection.\<close>

definition shown_image :: "image \<Rightarrow> image" where
  "shown_image img = (if is_tensor img then To_PIL (Reverse_normalize img) else img)"

text \<open>
  The body of the inner loop, for the cell \<open>(i, j)\<close> and the running \<^verbatim>\<open>index\<close>: the
  calls it makes, and the new \<^verbatim>\<open>index\<close> or the exception.
\<close>

definition grid_cell ::
  "image detector \<Rightarrow> image list \<Rightarrow> int \<times> int \<Rightarrow> int \<Rightarrow> int \<Rightarrow> nat \<Rightarrow> plot_event list \<times> (error + nat)"
where
  "grid_cell model images dims i j index =
     (if index < length images then
        (let img = images ! index in
         case predict_top model img of
           None \<Rightarrow> ([Predict_top_call img], Inl DetectorError)
         | Some preds \<Rightarrow>
             (let index' = index + 1; ax = select_axes dims i j
              in ([Predict_top_call img, Imshow ax (shown_image img)]
                    @ plot_predictions ax index' (zip_preds preds),
                  Inr index')))
      else ([], Inl IndexError))"

fun grid_row ::
  "image detector \<Rightarrow> image list \<Rightarrow> int \<times> int \<Rightarrow> int \<Rightarrow> int list \<Rightarrow> nat \<Rightarrow> plot_event list \<times> (error + nat)"
where
  "grid_row model images dims i [] index = ([], Inr index)"
| "grid_row model images dims i (j # js) index =
     (case grid_cell model images dims i j index of
        (evs, Inl e) \<Rightarrow> (evs, Inl e)
      | (evs, Inr index') \<Rightarrow>
          (case grid_row model images dims i js index' of (evs', r) \<Rightarrow> (evs @ evs', r)))"

fun grid_rows ::
  "image detector \<Rightarrow> image list \<Rightarrow> int \<times> int \<Rightarrow> int list \<Rightarrow> nat \<Rightarrow> plot_event list \<times> (error + nat)"
where
  "grid_rows model images dims [] index = ([], Inr index)"
| "grid_rows model images dims (i # is) index =
     (case grid_row model images dims i (range_py (snd dims)) index of
        (evs, Inl e) \<Rightarrow> (evs, Inl e)
      | (evs, Inr index') \<Rightarrow>
          (case grid_rows model images dims is index' of (evs', r) \<Rightarrow> (evs @ evs', r)))"

text \<open>
  \<^verbatim>\<open>plt.subplots(nrows, ncols)\<close> is library code: it raises \<^verbatim>\<open>ValueError\<close> unless
  both counts are positive, and returns the figure and its axes otherwise.
\<close>

definition subplots :: "int \<Rightarrow> int \<Rightarrow> error option" where
  "subplots nrows ncols = (if 0 < nrows \<and> 0 < ncols then None else Some ValueError)"

text \<open>
  \<^verbatim>\<open>dim\<close> is \<^verbatim>\<open>None\<close> or a pair of Python integers. The check of the layout comes
  first, then \<^verbatim>\<open>plt.subplots\<close>, then the two loops and \<^verbatim>\<open>plt.show\<close>.
\<close>

definition plot_prediction_grid ::
  "image detector \<Rightarrow> image list \<Rightarrow> (int \<times> int) option \<Rightarrow> plot_event list \<times> error option"
where
  "plot_prediction_grid model images dim_arg =
     (let dims = (case dim_arg of None \<Rightarrow> (int (length images), 1) | Some d \<Rightarrow> d)
      in if fst dims * snd dims \<noteq> int (length images) then ([], Some ValueError)
         else
           (case subplots (fst dims) (snd dims) of
              Some e \<Rightarrow> ([Subplots (fst dims) (snd dims)], Some e)
            | None \<Rightarrow>
                (case grid_rows model images dims (range_py (fst dims)) 0 of
                   (evs, Inl e) \<Rightarrow> (Subplots (fst dims) (snd dims) # evs, Some e)
                 | (evs, Inr _) \<Rightarrow> (Subplots (fst dims) (snd dims) # evs @ [Show], None))))"

text \<open>
  What a list of calls holds: the images given to each detector method, the images shown,
  the texts and the titles.
\<close>

fun predict_top_calls :: "plot_event list \<Rightarrow> image list" where
  "predict_top_calls [] = []"
| "predict_top_calls (Predict_top_call img # evs) = img # predict_top_calls evs"
| "predict_top_calls (_ # evs) = predict_top_calls evs"

fun predict_calls :: "plot_event list \<Rightarrow> image list" where
  "predict_calls [] = []"
| "predict_calls (Predict_call img # evs) = img # predict_calls evs"
| "predict_calls (_ # evs) = predict_calls evs"

fun images_shown :: "plot_event list \<Rightarrow> image list" where
  "images_shown [] = []"
| "images_shown (Imshow ax img # evs) = img # images_shown evs"
| "images_shown (_ # evs) = images_shown evs"

fun texts_drawn :: "plot_event list \<Rightarrow> (string \<times> scalar) list" where
  "texts_drawn [] = []"
| "texts_drawn (Text ax x y label score # evs) = (label, score) # texts_drawn evs"
| "texts_drawn (_ # evs) = texts_drawn evs"

fun titles_set :: "plot_event list \<Rightarrow> (axes_ref \<times> nat) list" where
  "titles_set [] = []"
| "titles_set (Set_title ax k # evs) = (ax, k) # titles_set evs"
| "titles_set (_ # evs) = titles_set evs"

text \<open>The result of \<^verbatim>\<open>predict_top\<close> on an image, empty where the call raises.\<close>

definition top_predictions :: "'a detector \<Rightarrow> 'a \<Rightarrow> (string \<times> box \<times> scalar) list" where
  "top_predictions model x = (case predict_top model x of None \<Rightarrow> [] | Some p \<Rightarrow> zip_preds p)"

section \<open>\<^verbatim>\<open>detect_video\<close>\<close>

text \<open>
  What \<^verbatim>\<open>cv2.rectangle\<close> and \<^verbatim>\<open>cv2.putText\<close> draw on a frame: the two corners of
  a rectangle; a label, a rounded score and the position of the text.
\<close>

datatype overlay =
    Cv_rectangle "scalar \<times> scalar" "scalar \<times> scalar"
  | Cv_text string scalar "scalar \<times> scalar"

text \<open>A frame: its dimensions, its pixels as read, and what has been drawn on it since.\<close>

record frame =
  frame_w :: nat
  frame_h :: nat
  pixels :: nat
  drawn :: "overlay list"

text \<open>
  The input file as \<^verbatim>\<open>cv2.VideoCapture\<close> sees it. A capture that could not be opened
  answers 0 to \<^verbatim>\<open>get\<close> and \<^verbatim>\<open>(False, None)\<close> to \<^verbatim>\<open>read\<close>. \<open>frames\<close>
  are the frames that \<^verbatim>\<open>read\<close> returns before it first reports \<^verbatim>\<open>ret = False\<close>; a
  file has finitely many.
\<close>

record video_file =
  is_opened :: bool
  prop_frame_width :: int
  prop_frame_height :: int
  frames :: "frame list"

definition get_frame_width :: "video_file \<Rightarrow> int" where
  "get_frame_width video = (if is_opened video then prop_frame_width video else 0)"

definition get_frame_height :: "video_file \<Rightarrow> int" where
  "get_frame_height video = (if is_opened video then prop_frame_height video else 0)"

definition readable_frames :: "video_file \<Rightarrow> frame list" where
  "readable_frames video = (if is_opened video then frames video else [])"

definition scaled_size :: nat where
  "scaled_size = 800"

definition scale_down_factor :: "video_file \<Rightarrow> scalar" where
  "scale_down_factor video =
     of_int (min (get_frame_height video) (get_frame_width video)) / of_nat scaled_size"

text \<open>
  \<^verbatim>\<open>transform_frame(frame)\<close>: the composition of \<^verbatim>\<open>ToPILImage\<close>,
  \<^verbatim>\<open>Resize(scaled_size)\<close>, \<^verbatim>\<open>ToTensor\<close> and \<^verbatim>\<open>normalize_transform()\<close> applied
  to the frame; it leaves the frame as it is.
\<close>

datatype net_input = Transformed nat frame

definition transform_frame :: "frame \<Rightarrow> net_input" where
  "transform_frame fr = Transformed scaled_size fr"

text \<open>\<^verbatim>\<open>box *= scale_down_factor\<close>\<close>

definition scale_box :: "scalar \<Rightarrow> box \<Rightarrow> box" where
  "scale_box f b = Box (x_min b * f) (y_min b * f) (x_max b * f) (y_max b * f)"

definition cv2_rectangle :: "frame \<Rightarrow> scalar \<times> scalar \<Rightarrow> scalar \<times> scalar \<Rightarrow> frame" where
  "cv2_rectangle fr p q = fr\<lparr>drawn := drawn fr @ [Cv_rectangle p q]\<rparr>"

definition cv2_putText :: "frame \<Rightarrow> string \<Rightarrow> scalar \<Rightarrow> scalar \<times> scalar \<Rightarrow> frame" where
  "cv2_putText fr label score p = fr\<lparr>drawn := drawn fr @ [Cv_text label score p]\<rparr>"

text \<open>The loop over the predictions of one frame.\<close>

fun annotate :: "scalar \<Rightarrow> (string \<times> box \<times> scalar) list \<Rightarrow> frame \<Rightarrow> frame" where
  "annotate f [] fr = fr"
| "annotate f ((label, box, score) # rest) fr =
     (let box' = scale_box f box;
          fr1 = cv2_rectangle fr (x_min box', y_min box') (x_max box', y_max box');
          fr2 = cv2_putText fr1 label (round2 score) (x_min box', y_min box' - 10)
      in annotate f rest fr2)"

text \<open>The calls of \<^verbatim>\<open>detect_video\<close> to the video library and to the detector, in order.\<close>

datatype video_event =
    Capture_created
  | Writer_created int int int
  | Frame_read frame
  | Read_failed
  | Predict_top_frame net_input
  | Frame_written frame
  | Key_polled int
  | Capture_released
  | Writer_released
  | Windows_destroyed

text \<open>\<^verbatim>\<open>ord("q")\<close>\<close>

definition ord_q :: int where
  "ord_q = 113"

text \<open>
  The \<^verbatim>\<open>while True\<close> loop, on the frames still to be read. \<open>wait_key n\<close> is what the
  \<open>n\<close>-th call of \<^verbatim>\<open>cv2.waitKey(1)\<close> returns.
\<close>

fun frame_loop ::
  "net_input detector \<Rightarrow> scalar \<Rightarrow> (nat \<Rightarrow> int) \<Rightarrow> nat \<Rightarrow> frame list \<Rightarrow> video_event list \<times> error option"
where
  "frame_loop model f wait_key n [] = ([Read_failed], None)"
| "frame_loop model f wait_key n (fr # rest) =
     (case predict_top model (transform_frame fr) of
        None \<Rightarrow> ([Frame_read fr, Predict_top_frame (transform_frame fr)], Some DetectorError)
      | Some predictions \<Rightarrow>
          (let annotated = annotate f (zip_preds predictions) fr;
               key = wait_key n AND 255;
               evs = [Frame_read fr, Predict_top_frame (transform_frame fr),
                      Frame_written annotated, Key_polled (wait_key n)]
           in if key = ord_q then (evs, None)
              else (case frame_loop model f wait_key (Suc n) rest of
                      (evs', r) \<Rightarrow> (evs @ evs', r))))"

definition detect_video ::
  "net_input detector \<Rightarrow> video_file \<Rightarrow> (nat \<Rightarrow> int) \<Rightarrow> int \<Rightarrow> video_event list \<times> error option"
where
  "detect_video model input_file wait_key fps =
     (let frame_width = get_frame_width input_file;
          frame_height = get_frame_height input_file;
          start = [Capture_created, Writer_created frame_width frame_height fps]
      in case frame_loop model (scale_down_factor input_file) wait_key 0
                (readable_frames input_file) of
           (evs, Some e) \<Rightarrow> (start @ evs, Some e)
         | (evs, None) \<Rightarrow>
             (start @ evs @ [Capture_released, Writer_released, Windows_destroyed], None))"

fun frames_read :: "video_event list \<Rightarrow> frame list" where
  "frames_read [] = []"
| "frames_read (Frame_read fr # evs) = fr # frames_read evs"
| "frames_read (_ # evs) = frames_read evs"

fun frames_written :: "video_event list \<Rightarrow> frame list" where
  "frames_written [] = []"
| "frames_written (Frame_written fr # evs) = fr # frames_written evs"
| "frames_written (_ # evs) = frames_written evs"

fun is_read :: "video_event \<Rightarrow> bool" where
  "is_read (Frame_read _) = True"
| "is_read Read_failed = True"
| "is_read _ = False"

fun rectangles :: "overlay list \<Rightarrow> box list" where
  "rectangles [] = []"
| "rectangles (Cv_rectangle (x0, y0) (x1, y1) # os) = Box x0 y0 x1 y1 # rectangles os"
| "rectangles (_ # os) = rectangles os"

section \<open>Concrete inputs\<close>

text \<open>
  A detector that finds two objects of one label in every image; its \<^verbatim>\<open>predict_top\<close>
  keeps the one of highest score.
\<close>

definition two_ticks :: "image detector" where
  "two_ticks =
     \<lparr>predict = (\<lambda>img. Some ([''tick'', ''tick''], [Box 0 0 10 10, Box 1 1 5 5], [9 / 10, 1 / 2])),
      predict_top = (\<lambda>img. Some ([''tick''], [Box 0 0 10 10], [9 / 10]))\<rparr>"

text \<open>A detector that finds nothing in the image \<open>Array_image 0\<close> and one object in any other.\<close>

definition nothing_in_first :: "image detector" where
  "nothing_in_first =
     \<lparr>predict = (\<lambda>img. if img = Array_image 0 then Some ([], [], [])
                       else Some ([''tick''], [Box 0 0 10 10], [9 / 10])),
      predict_top = (\<lambda>img. if img = Array_image 0 then Some ([], [], [])
                           else Some ([''tick''], [Box 0 0 10 10], [9 / 10]))\<rparr>"

definition four_images :: "image list" where
  "four_images = [Array_image 0, Array_image 1, Tensor_image 2, Array_image 3]"

text \<open>
  Videos of two sizes, a path that cannot be opened, detectors for frames (one that finds
  an object in every frame, one that always raises, one that raises on the second frame of
  the smaller video), and the key presses: none, and \<^verbatim>\<open>q\<close> during the first frame.
\<close>

definition blank_frame :: "nat \<Rightarrow> nat \<Rightarrow> nat \<Rightarrow> frame" where
  "blank_frame w h n = \<lparr>frame_w = w, frame_h = h, pixels = n, drawn = []\<rparr>"

definition video_800 :: video_file where
  "video_800 =
     \<lparr>is_opened = True, prop_frame_width = 1000, prop_frame_height = 800,
      frames = [blank_frame 1000 800 0, blank_frame 1000 800 1]\<rparr>"

definition video_1600 :: video_file where
  "video_1600 =
     \<lparr>is_opened = True, prop_frame_width = 2000, prop_frame_height = 1600,
      frames = [blank_frame 2000 1600 0, blank_frame 2000 1600 1, blank_frame 2000 1600 2]\<rparr>"

definition missing_video :: video_file where
  "missing_video =
     \<lparr>is_opened = False, prop_frame_width = 0, prop_frame_height = 0, frames = []\<rparr>"

definition one_tick :: "net_input detector" where
  "one_tick =
     \<lparr>predict = (\<lambda>x. Some ([''tick'', ''tick''], [Box 10 20 110 220, Box 1 1 5 5], [9 / 10, 1 / 2])),
      predict_top = (\<lambda>x. Some ([''tick''], [Box 10 20 110 220], [9 / 10]))\<rparr>"

definition raising_detector :: "net_input detector" where
  "raising_detector = \<lparr>predict = (\<lambda>x. None), predict_top = (\<lambda>x. None)\<rparr>"

definition raises_on_second :: "net_input detector" where
  "raises_on_second =
     \<lparr>predict = (\<lambda>x. None),
      predict_top = (\<lambda>x. if x = transform_frame (blank_frame 1000 800 1) then None
                         else Some ([''tick''], [Box 10 20 110 220], [9 / 10]))\<rparr>"

definition no_key :: "nat \<Rightarrow> int" where
  "no_key n = - 1"

definition q_on_first_frame :: "nat \<Rightarrow> int" where
  "q_on_first_frame n = (if n = 0 then 113 else - 1)"

section \<open>Properties of \<^verbatim>\<open>show_labeled_image\<close>\<close>

lemma box_patch_4: "length box = 4 \<Longrightarrow> box_patch box = Inr (rect_of box)"
  by (simp add: box_patch_def item_at_def rect_of_def)

lemma plot_boxes_4:
  "\<forall>box \<in> set rows. length box = 4 \<Longrightarrow>
     plot_boxes rows = (map (\<lambda>box. Add_patch Axes (rect_of box)) rows, None)"
  by (induction rows) (simp_all add: box_patch_4)

lemma patches_drawn_append: "patches_drawn (xs @ ys) = patches_drawn xs @ patches_drawn ys"
  by (induction xs rule: patches_drawn.induct) simp_all

lemma patches_drawn_map_Add_patch: "patches_drawn (map (\<lambda>x. Add_patch ax (f x)) xs) = map f xs"
  by (induction xs) simp_all

lemma show_labeled_image_Mat_4:
  assumes "\<forall>box \<in> set rows. length box = 4"
  shows "show_labeled_image img (Mat rows) =
           ([Subplots 1 1, Imshow Axes (if is_tensor img then To_PIL img else img)]
              @ map (\<lambda>box. Add_patch Axes (rect_of box)) rows @ [Show], None)"
  using assms by (simp add: show_labeled_image_def plot_boxes_4)

lemma show_labeled_image_Vec_4:
  assumes "length xs = 4"
  shows "show_labeled_image img (Vec xs) =
           ([Subplots 1 1, Imshow Axes (if is_tensor img then To_PIL img else img),
             Add_patch Axes (rect_of xs), Show], None)"
  using assms by (simp add: show_labeled_image_def view_1_4_def box_patch_4)

text \<open>
  Claim C6. A 1-dimensional \<^verbatim>\<open>boxes\<close> of four elements is turned into one row, the
  call returns, and exactly one rectangle is added, anchored at \<^verbatim>\<open>(box[0], box[1])\<close>
  with width \<^verbatim>\<open>box[2] - box[0]\<close> and height \<^verbatim>\<open>box[3] - box[1]\<close>. For an
  \<open>N \<times> 4\<close> input the call returns and adds exactly \<open>N\<close> rectangles, the \<open>k\<close>-th one
  computed from the \<open>k\<close>-th row.
\<close>

theorem show_labeled_image_one_rectangle_per_box:
  "(length box = 4 \<longrightarrow>
      view_1_4 box = Inr [box] \<and>
      snd (show_labeled_image img (Vec box)) = None \<and>
      patches_drawn (fst (show_labeled_image img (Vec box))) =
        [Rectangle (box ! 0, box ! 1) (box ! 2 - box ! 0) (box ! 3 - box ! 1)]) \<and>
   ((\<forall>row \<in> set rows. length row = 4) \<longrightarrow>
      snd (show_labeled_image img (Mat rows)) = None \<and>
      patches_drawn (fst (show_labeled_image img (Mat rows))) =
        map (\<lambda>row. Rectangle (row ! 0, row ! 1) (row ! 2 - row ! 0) (row ! 3 - row ! 1)) rows \<and>
      length (patches_drawn (fst (show_labeled_image img (Mat rows)))) = length rows)"
proof (intro conjI impI)
  assume four: "length box = 4"
  show "view_1_4 box = Inr [box]"
    by (simp add: view_1_4_def four)
  show "snd (show_labeled_image img (Vec box)) = None"
    by (simp add: show_labeled_image_Vec_4 [OF four])
  show "patches_drawn (fst (show_labeled_image img (Vec box))) =
        [Rectangle (box ! 0, box ! 1) (box ! 2 - box ! 0) (box ! 3 - box ! 1)]"
    by (simp add: show_labeled_image_Vec_4 [OF four] rect_of_def)
next
  assume rows4: "\<forall>row \<in> set rows. length row = 4"
  show "snd (show_labeled_image img (Mat rows)) = None"
    by (simp add: show_labeled_image_Mat_4 [OF rows4])
  show drawn: "patches_drawn (fst (show_labeled_image img (Mat rows))) =
        map (\<lambda>row. Rectangle (row ! 0, row ! 1) (row ! 2 - row ! 0) (row ! 3 - row ! 1)) rows"
    by (simp add: show_labeled_image_Mat_4 [OF rows4] patches_drawn_append
          patches_drawn_map_Add_patch rect_of_def)
  show "length (patches_drawn (fst (show_labeled_image img (Mat rows)))) = length rows"
    by (simp add: drawn)
qed

theorem show_labeled_image_one_rectangle_per_box_witness:
  "length [1, 2, 4, 6 :: scalar] = 4 \<and>
   map length [[1, 2, 4, 6], [0, 0, 10, 20 :: scalar]] = [4, 4] \<and>
   view_1_4 [1, 2, 4, 6] = Inr [[1, 2, 4, 6]] \<and>
   patches_drawn (fst (show_labeled_image (Array_image 0) (Vec [1, 2, 4, 6]))) =
     [Rectangle (1, 2) 3 4] \<and>
   patches_drawn (fst (show_labeled_image (Array_image 0) (Mat [[1, 2, 4, 6], [0, 0, 10, 20]]))) =
     [Rectangle (1, 2) 3 4, Rectangle (0, 0) 10 20]"
  using show_labeled_image_one_rectangle_per_box
    [of "[1, 2, 4, 6]" "Array_image 0" "[[1, 2, 4, 6], [0, 0, 10, 20]]"]
  by simp

text \<open>
  Claim C10. A 1-dimensional \<^verbatim>\<open>boxes\<close> whose number of elements is not 4 makes the
  call fail at \<^verbatim>\<open>boxes.view(1, 4)\<close>: the figure and the image are set up, no rectangle
  is added, and the \<^verbatim>\<open>RuntimeError\<close> of \<^verbatim>\<open>view\<close> leaves the call. Conversely the
  reshape returns, and the call goes on without that error, only for exactly 4 elements.
\<close>

theorem show_labeled_image_view_needs_four:
  "(length xs \<noteq> 4 \<longrightarrow>
      show_labeled_image img (Vec xs) =
        ([Subplots 1 1, Imshow Axes (if is_tensor img then To_PIL img else img)],
         Some RuntimeError) \<and>
      patches_drawn (fst (show_labeled_image img (Vec xs))) = []) \<and>
   (snd (show_labeled_image img (Vec xs)) \<noteq> Some RuntimeError \<longrightarrow> length xs = 4) \<and>
   (view_1_4 xs = Inr rows \<longrightarrow> length xs = 4 \<and> rows = [xs])"
  by (auto simp: show_labeled_image_def view_1_4_def)

theorem show_labeled_image_view_needs_four_witness:
  "length [1, 2, 3 :: scalar] \<noteq> 4 \<and>
   show_labeled_image (Array_image 0) (Vec [1, 2, 3]) =
     ([Subplots 1 1, Imshow Axes (Array_image 0)], Some RuntimeError) \<and>
   snd (show_labeled_image (Array_image 0) (Vec [1, 2, 4, 6])) \<noteq> Some RuntimeError \<and>
   view_1_4 [1, 2, 4, 6] = Inr [[1, 2, 4, 6]] \<and>
   length [1, 2, 4, 6 :: scalar] = 4"
  using show_labeled_image_view_needs_four [of "[1, 2, 3]" "Array_image 0" "[]"]
    show_labeled_image_view_needs_four [of "[1, 2, 4, 6]" "Array_image 0" "[[1, 2, 4, 6]]"]
  by (simp add: show_labeled_image_def view_1_4_def box_patch_def item_at_def)

section \<open>Properties of \<^verbatim>\<open>plot_prediction_grid\<close>\<close>

lemma length_range_py: "length (range_py n) = nat n"
  by (simp add: range_py_def)

lemma grid_cell_ok:
  assumes "index < length images" and "predict_top model (images ! index) = Some p"
  shows "grid_cell model images dims i j index =
           ([Predict_top_call (images ! index),
             Imshow (select_axes dims i j) (shown_image (images ! index))]
              @ plot_predictions (select_axes dims i j) (Suc index) (zip_preds p),
            Inr (Suc index))"
  using assms by (simp add: grid_cell_def Let_def)

lemma grid_row_ok:
  assumes ok: "\<forall>img \<in> set images. predict_top model img \<noteq> None"
    and P_app: "\<And>xs ys. P (xs @ ys) = P xs @ P ys"
    and P_cell: "\<And>ax k img ps.
       P ([Predict_top_call img, Imshow ax (shown_image img)] @ plot_predictions ax k ps) = F img ps"
  shows "index + length js \<le> length images \<Longrightarrow>
     \<exists>evs. grid_row model images dims i js index = (evs, Inr (index + length js)) \<and>
           P evs = concat (map (\<lambda>img. F img (top_predictions model img))
                              (take (length js) (drop index images)))"
proof (induction js arbitrary: index)
  case Nil
  have "P [] = []" using P_app [of "[]" "[]"] by simp
  then show ?case by simp
next
  case (Cons j js)
  then have lt: "index < length images" by simp
  then have "images ! index \<in> set images" by simp
  with ok obtain p where p: "predict_top model (images ! index) = Some p" by blast
  from Cons.prems have "Suc index + length js \<le> length images" by simp
  from Cons.IH [OF this] obtain evs where
    evs: "grid_row model images dims i js (Suc index) = (evs, Inr (Suc index + length js))"
    and P_evs: "P evs = concat (map (\<lambda>img. F img (top_predictions model img))
                              (take (length js) (drop (Suc index) images)))"
    by blast
  have split: "take (Suc (length js)) (drop index images) =
                 images ! index # take (length js) (drop (Suc index) images)"
    using lt by (simp add: Cons_nth_drop_Suc [symmetric])
  have top: "top_predictions model (images ! index) = zip_preds p"
    by (simp add: top_predictions_def p)
  let ?cell = "[Predict_top_call (images ! index),
                Imshow (select_axes dims i j) (shown_image (images ! index))]
               @ plot_predictions (select_axes dims i j) (Suc index) (zip_preds p)"
  have row: "grid_row model images dims i (j # js) index =
               (?cell @ evs, Inr (index + length (j # js)))"
    by (simp add: grid_cell_ok [OF lt p] evs)
  have "P (?cell @ evs) = P ?cell @ P evs" by (rule P_app)
  also have "P ?cell = F (images ! index) (zip_preds p)" by (rule P_cell)
  finally have "P (?cell @ evs) =
      concat (map (\<lambda>img. F img (top_predictions model img))
                  (take (length (j # js)) (drop index images)))"
    by (simp add: P_evs split top)
  with row show ?case by blast
qed

lemma grid_rows_ok:
  assumes ok: "\<forall>img \<in> set images. predict_top model img \<noteq> None"
    and P_app: "\<And>xs ys. P (xs @ ys) = P xs @ P ys"
    and P_cell: "\<And>ax k img ps.
       P ([Predict_top_call img, Imshow ax (shown_image img)] @ plot_predictions ax k ps) = F img ps"
  shows "index + length rs * nat (snd dims) \<le> length images \<Longrightarrow>
     \<exists>evs. grid_rows model images dims rs index = (evs, Inr (index + length rs * nat (snd dims))) \<and>
           P evs = concat (map (\<lambda>img. F img (top_predictions model img))
                              (take (length rs * nat (snd dims)) (drop index images)))"
proof (induction rs arbitrary: index)
  case Nil
  have "P [] = []" using P_app [of "[]" "[]"] by simp
  then show ?case by simp
next
  case (Cons r rs)
  let ?c = "nat (snd dims)"
  from Cons.prems have row: "index + length (range_py (snd dims)) \<le> length images"
    by (simp add: length_range_py)
  from grid_row_ok [of images model P F, OF ok P_app P_cell row, of dims r] obtain evs1 where
    evs1: "grid_row model images dims r (range_py (snd dims)) index = (evs1, Inr (index + ?c))"
    and P1: "P evs1 = concat (map (\<lambda>img. F img (top_predictions model img))
                              (take ?c (drop index images)))"
    by (auto simp: length_range_py)
  from Cons.prems have "(index + ?c) + length rs * ?c \<le> length images" by simp
  from Cons.IH [OF this] obtain evs2 where
    evs2: "grid_rows model images dims rs (index + ?c) = (evs2, Inr (index + ?c + length rs * ?c))"
    and P2: "P evs2 = concat (map (\<lambda>img. F img (top_predictions model img))
                              (take (length rs * ?c) (drop (index + ?c) images)))"
    by blast
  have split: "take (?c + length rs * ?c) (drop index images) =
      take ?c (drop index images) @ take (length rs * ?c) (drop (index + ?c) images)"
    by (simp add: take_add add.commute)
  show ?case
    by (simp add: evs1 evs2 P_app P1 P2 split add.assoc)
qed

lemma plot_prediction_grid_ok:
  assumes ok: "\<forall>img \<in> set images. predict_top model img \<noteq> None"
    and P_app: "\<And>xs ys. P (xs @ ys) = P xs @ P ys"
    and P_cell: "\<And>ax k img ps.
       P ([Predict_top_call img, Imshow ax (shown_image img)] @ plot_predictions ax k ps) = F img ps"
    and r: "0 < r" and c: "0 < c" and rc: "r * c = int (length images)"
  shows "\<exists>evs. plot_prediction_grid model images (Some (r, c)) = (Subplots r c # evs @ [Show], None) \<and>
           P evs = concat (map (\<lambda>img. F img (top_predictions model img)) images)"
proof -
  have "nat (r * c) = nat r * nat c" using r by (simp add: nat_mult_distrib)
  with rc have n: "nat r * nat c = length images" by simp
  then have "0 + length (range_py r) * nat (snd (r, c)) \<le> length images"
    by (simp add: length_range_py)
  from grid_rows_ok [of images model P F, OF ok P_app P_cell this] obtain evs where
    evs: "grid_rows model images (r, c) (range_py r) 0 = (evs, Inr (nat r * nat c))"
    and P_evs: "P evs = concat (map (\<lambda>img. F img (top_predictions model img))
                              (take (nat r * nat c) images))"
    by (auto simp: length_range_py)
  show ?thesis
    using rc r c by (simp add: plot_prediction_grid_def subplots_def evs P_evs n)
qed

lemma plot_prediction_grid_subplots_raises:
  assumes "r * c = int (length images)" and "\<not> (0 < r \<and> 0 < c)"
  shows "plot_prediction_grid model images (Some (r, c)) = ([Subplots r c], Some ValueError)"
proof -
  from assms(2) have "subplots r c = Some ValueError"
    by (simp add: subplots_def)
  with assms(1) show ?thesis
    by (simp add: plot_prediction_grid_def)
qed

lemma plot_prediction_grid_projection:
  assumes ok: "\<forall>img \<in> set images. predict_top model img \<noteq> None"
    and P_app: "\<And>xs ys. P (xs @ ys) = P xs @ P ys"
    and P_cell: "\<And>ax k img ps.
       P ([Predict_top_call img, Imshow ax (shown_image img)] @ plot_predictions ax k ps) = F img ps"
    and P_subplots: "P [Subplots r c] = []" and P_show: "P [Show] = []"
    and r: "0 \<le> r" and c: "0 \<le> c" and rc: "r * c = int (length images)"
  shows "P (fst (plot_prediction_grid model images (Some (r, c)))) =
           concat (map (\<lambda>img. F img (top_predictions model img)) images)"
proof (cases "0 < r \<and> 0 < c")
  case True
  then have r': "0 < r" and c': "0 < c" by simp_all
  from plot_prediction_grid_ok [of images model P F, OF ok P_app P_cell r' c' rc]
  obtain evs where
    run: "plot_prediction_grid model images (Some (r, c)) = (Subplots r c # evs @ [Show], None)"
    and P_evs: "P evs = concat (map (\<lambda>img. F img (top_predictions model img)) images)"
    by blast
  have "P (Subplots r c # evs @ [Show]) = P ([Subplots r c] @ evs @ [Show])" by simp
  also have "\<dots> = P [Subplots r c] @ P evs @ P [Show]" by (simp only: P_app)
  also have "\<dots> = P evs" by (simp add: P_subplots P_show)
  finally show ?thesis by (simp add: run P_evs)
next
  case False
  with r c have "r = 0 \<or> c = 0" by auto
  with rc have empty: "images = []" by auto
  from plot_prediction_grid_subplots_raises [OF rc False]
  have "plot_prediction_grid model images (Some (r, c)) = ([Subplots r c], Some ValueError)" .
  then show ?thesis by (simp add: P_subplots empty)
qed

lemma predict_top_calls_append:
  "predict_top_calls (xs @ ys) = predict_top_calls xs @ predict_top_calls ys"
  by (induction xs rule: predict_top_calls.induct) simp_all

lemma predict_calls_append: "predict_calls (xs @ ys) = predict_calls xs @ predict_calls ys"
  by (induction xs rule: predict_calls.induct) simp_all

lemma images_shown_append: "images_shown (xs @ ys) = images_shown xs @ images_shown ys"
  by (induction xs rule: images_shown.induct) simp_all

lemma texts_drawn_append: "texts_drawn (xs @ ys) = texts_drawn xs @ texts_drawn ys"
  by (induction xs rule: texts_drawn.induct) simp_all

lemma predict_top_calls_plot_predictions: "predict_top_calls (plot_predictions ax k ps) = []"
  by (induction ps) auto

lemma predict_calls_plot_predictions: "predict_calls (plot_predictions ax k ps) = []"
  by (induction ps) auto

lemma images_shown_plot_predictions: "images_shown (plot_predictions ax k ps) = []"
  by (induction ps) auto

lemma patches_drawn_plot_predictions:
  "patches_drawn (plot_predictions ax k ps) =
     map (\<lambda>(label, b, score).
            Rectangle (x_min b, y_min b) (x_max b - x_min b) (y_max b - y_min b)) ps"
  by (induction ps) auto

lemma texts_drawn_plot_predictions:
  "texts_drawn (plot_predictions ax k ps) = map (\<lambda>(label, b, score). (label, round2 score)) ps"
  by (induction ps) auto

lemma grid_cell_no_ValueError: "grid_cell model images dims i j index \<noteq> (evs, Inl ValueError)"
  by (simp add: grid_cell_def Let_def split: option.split)

lemma grid_row_no_ValueError: "grid_row model images dims i js index \<noteq> (evs, Inl ValueError)"
proof (induction js arbitrary: index evs)
  case Nil
  show ?case by simp
next
  case (Cons j js)
  show ?case
    by (auto simp: grid_cell_no_ValueError Cons.IH split: prod.split sum.split)
qed

lemma grid_rows_no_ValueError: "grid_rows model images dims rs index \<noteq> (evs, Inl ValueError)"
proof (induction rs arbitrary: index evs)
  case Nil
  show ?case by simp
next
  case (Cons r rs)
  show ?case
    by (auto simp: grid_row_no_ValueError Cons.IH split: prod.split sum.split)
qed

lemma plot_prediction_grid_no_ValueError:
  assumes "r * c = int (length images)" and "0 < r" and "0 < c"
  shows "snd (plot_prediction_grid model images (Some (r, c))) \<noteq> Some ValueError"
  using assms
  by (auto simp: plot_prediction_grid_def subplots_def grid_rows_no_ValueError
        split: prod.split sum.split)

text \<open>
  Claim C1, as amended. For a layout of positive \<open>r\<close> and \<open>c\<close> with \<open>r * c = N\<close> no
  \<^verbatim>\<open>ValueError\<close> is raised, and when no detector call raises, the call returns and
  exactly the \<open>N\<close> images are processed: each is given to the detector and shown, once, in
  order. When \<open>r * c \<noteq> N\<close> the call raises \<^verbatim>\<open>ValueError\<close> having made no call at all:
  no detection, no figure. When \<open>r * c = N\<close> but \<open>r\<close> or \<open>c\<close> is not positive, the check
  passes, \<^verbatim>\<open>plt.subplots\<close> raises \<^verbatim>\<open>ValueError\<close> and no image is processed. Without a
  \<^verbatim>\<open>dim\<close> the layout is \<open>(N, 1)\<close>.
\<close>

theorem plot_prediction_grid_layout:
  "(0 < r \<and> 0 < c \<and> r * c = int (length images) \<longrightarrow>
      snd (plot_prediction_grid model images (Some (r, c))) \<noteq> Some ValueError) \<and>
   (0 < r \<and> 0 < c \<and> r * c = int (length images) \<and>
    (\<forall>img \<in> set images. predict_top model img \<noteq> None) \<longrightarrow>
      snd (plot_prediction_grid model images (Some (r, c))) = None \<and>
      predict_top_calls (fst (plot_prediction_grid model images (Some (r, c)))) = images \<and>
      images_shown (fst (plot_prediction_grid model images (Some (r, c)))) =
        map shown_image images) \<and>
   (r * c \<noteq> int (length images) \<longrightarrow>
      plot_prediction_grid model images (Some (r, c)) = ([], Some ValueError)) \<and>
   (r * c = int (length images) \<and> (r \<le> 0 \<or> c \<le> 0) \<longrightarrow>
      plot_prediction_grid model images (Some (r, c)) = ([Subplots r c], Some ValueError)) \<and>
   plot_prediction_grid model images None =
      plot_prediction_grid model images (Some (int (length images), 1))"
proof (intro conjI impI)
  assume "0 < r \<and> 0 < c \<and> r * c = int (length images)"
  then show "snd (plot_prediction_grid model images (Some (r, c))) \<noteq> Some ValueError"
    by (simp add: plot_prediction_grid_no_ValueError)
next
  assume h: "0 < r \<and> 0 < c \<and> r * c = int (length images) \<and>
             (\<forall>img \<in> set images. predict_top model img \<noteq> None)"
  then have ok: "\<forall>img \<in> set images. predict_top model img \<noteq> None"
    and r: "0 < r" and c: "0 < c" and rc: "r * c = int (length images)"
    by simp_all
  from plot_prediction_grid_ok [of images model predict_top_calls "\<lambda>img ps. [img]",
      OF ok predict_top_calls_append _ r c rc]
  obtain evs where
    run: "plot_prediction_grid model images (Some (r, c)) = (Subplots r c # evs @ [Show], None)"
    and calls: "predict_top_calls evs = concat (map (\<lambda>img. [img]) images)"
    by (auto simp: predict_top_calls_append predict_top_calls_plot_predictions)
  from plot_prediction_grid_ok [of images model images_shown "\<lambda>img ps. [shown_image img]",
      OF ok images_shown_append _ r c rc]
  obtain evs' where
    run': "plot_prediction_grid model images (Some (r, c)) = (Subplots r c # evs' @ [Show], None)"
    and shown: "images_shown evs' = concat (map (\<lambda>img. [shown_image img]) images)"
    by (auto simp: images_shown_append images_shown_plot_predictions)
  have concat_single: "\<And>f xs. concat (map (\<lambda>x. [f x]) xs) = map f xs"
    by (simp add: concat_map_singleton)
  show "snd (plot_prediction_grid model images (Some (r, c))) = None"
    by (simp add: run)
  show "predict_top_calls (fst (plot_prediction_grid model images (Some (r, c)))) = images"
    using concat_single [of "\<lambda>x. x" images]
    by (simp add: run predict_top_calls_append calls)
  show "images_shown (fst (plot_prediction_grid model images (Some (r, c)))) =
          map shown_image images"
    by (simp add: run' images_shown_append shown concat_single)
next
  assume "r * c \<noteq> int (length images)"
  then show "plot_prediction_grid model images (Some (r, c)) = ([], Some ValueError)"
    by (simp add: plot_prediction_grid_def)
next
  assume "r * c = int (length images) \<and> (r \<le> 0 \<or> c \<le> 0)"
  then have "r * c = int (length images)" and "\<not> (0 < r \<and> 0 < c)" by auto
  then show "plot_prediction_grid model images (Some (r, c)) = ([Subplots r c], Some ValueError)"
    by (rule plot_prediction_grid_subplots_raises)
next
  show "plot_prediction_grid model images None =
          plot_prediction_grid model images (Some (int (length images), 1))"
    by (simp add: plot_prediction_grid_def)
qed

theorem plot_prediction_grid_layout_witness:
  "(0::int) < 2 \<and> (2::int) * 2 = int (length four_images) \<and>
   list_all (\<lambda>img. predict_top two_ticks img \<noteq> None) four_images \<and>
   snd (plot_prediction_grid two_ticks four_images (Some (2, 2))) = None \<and>
   predict_top_calls (fst (plot_prediction_grid two_ticks four_images (Some (2, 2)))) =
     four_images \<and>
   (2::int) * 3 \<noteq> int (length four_images) \<and>
   plot_prediction_grid two_ticks four_images (Some (2, 3)) = ([], Some ValueError) \<and>
   (0::int) * 3 = int (length ([] :: image list)) \<and> (0::int) \<le> 0 \<and>
   plot_prediction_grid two_ticks [] (Some (0, 3)) = ([Subplots 0 3], Some ValueError)"
  using plot_prediction_grid_layout [of 2 2 four_images two_ticks]
    plot_prediction_grid_layout [of 2 3 four_images two_ticks]
    plot_prediction_grid_layout [of 0 3 "[]" two_ticks]
  by (simp add: four_images_def two_ticks_def)

text \<open>
  Claim C1 as stated fails where \<open>r * c = N\<close> and \<open>r\<close> or \<open>c\<close> is not positive. For the
  layout \<open>(-2, -2)\<close> and four images the check passes, \<^verbatim>\<open>plt.subplots\<close> raises
  \<^verbatim>\<open>ValueError\<close> and none of the four images is processed. For no image at all and no
  \<^verbatim>\<open>dim\<close> the layout is \<open>(0, 1)\<close>, and \<^verbatim>\<open>plt.subplots\<close> raises as well.
\<close>

theorem plot_prediction_grid_negative_layout_counterexample:
  "(- 2 :: int) * (- 2) = int (length four_images) \<and>
   plot_prediction_grid two_ticks four_images (Some (- 2, - 2)) =
     ([Subplots (- 2) (- 2)], Some ValueError) \<and>
   predict_top_calls (fst (plot_prediction_grid two_ticks four_images (Some (- 2, - 2)))) = [] \<and>
   length four_images = 4 \<and>
   plot_prediction_grid two_ticks [] None = ([Subplots 0 1], Some ValueError)"
  by (simp add: four_images_def plot_prediction_grid_def subplots_def)

lemma zip_preds_boxes:
  "length labels = length boxes \<Longrightarrow> length scores = length boxes \<Longrightarrow>
     map (\<lambda>(label, b, score). b) (zip_preds (labels, boxes, scores)) = boxes"
proof -
  assume a: "length labels = length boxes" and b: "length scores = length boxes"
  have "map (\<lambda>(label, b, score). b) (zip labels (zip boxes scores)) =
        map (fst \<circ> snd) (zip labels (zip boxes scores))"
    by (rule map_cong) auto
  also have "\<dots> = map fst (map snd (zip labels (zip boxes scores)))" by simp
  also have "\<dots> = map fst (zip boxes scores)" using a b by simp
  also have "\<dots> = boxes" using b by simp
  finally show ?thesis by simp
qed

text \<open>
  Claim C2, as amended. For a layout of non-negative \<open>r\<close> and \<open>c\<close> with \<open>r * c = N\<close>,
  and when no detector call raises, \<^verbatim>\<open>plot_prediction_grid\<close> calls \<^verbatim>\<open>predict_top\<close>
  (the highest-scoring detection of each label) on every image, in order, and never
  \<^verbatim>\<open>predict\<close>; for every prediction that \<^verbatim>\<open>predict_top\<close> returns it adds the
  rectangle of the box and a text with the label and the score rounded to two decimals.
  Those predictions hold every returned box when the call returns as many labels and
  scores as boxes.
\<close>

theorem plot_prediction_grid_overlays_top_predictions:
  "(0 \<le> r \<and> 0 \<le> c \<and> r * c = int (length images) \<and>
    (\<forall>img \<in> set images. predict_top model img \<noteq> None) \<longrightarrow>
      predict_top_calls (fst (plot_prediction_grid model images (Some (r, c)))) = images \<and>
      predict_calls (fst (plot_prediction_grid model images (Some (r, c)))) = [] \<and>
      patches_drawn (fst (plot_prediction_grid model images (Some (r, c)))) =
        concat (map (\<lambda>img. map (\<lambda>(label, b, score).
                       Rectangle (x_min b, y_min b) (x_max b - x_min b) (y_max b - y_min b))
                     (top_predictions model img)) images) \<and>
      texts_drawn (fst (plot_prediction_grid model images (Some (r, c)))) =
        concat (map (\<lambda>img. map (\<lambda>(label, b, score). (label, round2 score))
                     (top_predictions model img)) images)) \<and>
   (predict_top model img = Some (labels, boxes, scores) \<and>
    length labels = length boxes \<and> length scores = length boxes \<longrightarrow>
      map (\<lambda>(label, b, score). b) (top_predictions model img) = boxes)"
proof (intro conjI impI)
  assume h: "0 \<le> r \<and> 0 \<le> c \<and> r * c = int (length images) \<and>
             (\<forall>img \<in> set images. predict_top model img \<noteq> None)"
  then have ok: "\<forall>img \<in> set images. predict_top model img \<noteq> None"
    and r: "0 \<le> r" and c: "0 \<le> c" and rc: "r * c = int (length images)"
    by simp_all
  let ?run = "plot_prediction_grid model images (Some (r, c))"
  have "predict_top_calls (fst ?run) = concat (map (\<lambda>img. [img]) images)"
    by (rule plot_prediction_grid_projection
          [of images model predict_top_calls "\<lambda>img ps. [img]", OF ok predict_top_calls_append _ _ _ r c rc])
       (simp_all add: predict_top_calls_append predict_top_calls_plot_predictions)
  then show "predict_top_calls (fst ?run) = images"
    by simp
  have "predict_calls (fst ?run) = concat (map (\<lambda>img. []) images)"
    by (rule plot_prediction_grid_projection
          [of images model predict_calls "\<lambda>img ps. []", OF ok predict_calls_append _ _ _ r c rc])
       (simp_all add: predict_calls_append predict_calls_plot_predictions)
  then show "predict_calls (fst ?run) = []"
    by simp
  let ?rect = "\<lambda>(label :: string, b, score :: scalar).
                 Rectangle (x_min b, y_min b) (x_max b - x_min b) (y_max b - y_min b)"
  show "patches_drawn (fst ?run) =
          concat (map (\<lambda>img. map ?rect (top_predictions model img)) images)"
    by (rule plot_prediction_grid_projection
          [of images model patches_drawn "\<lambda>img ps. map ?rect ps", OF ok patches_drawn_append _ _ _ r c rc])
       (simp_all add: patches_drawn_append patches_drawn_plot_predictions)
  let ?text = "\<lambda>(label :: string, b :: box, score). (label, round2 score)"
  show "texts_drawn (fst ?run) =
          concat (map (\<lambda>img. map ?text (top_predictions model img)) images)"
    by (rule plot_prediction_grid_projection
          [of images model texts_drawn "\<lambda>img ps. map ?text ps", OF ok texts_drawn_append _ _ _ r c rc])
       (simp_all add: texts_drawn_append texts_drawn_plot_predictions)
next
  assume "predict_top model img = Some (labels, boxes, scores) \<and>
          length labels = length boxes \<and> length scores = length boxes"
  then show "map (\<lambda>(label, b, score). b) (top_predictions model img) = boxes"
    using zip_preds_boxes [of labels boxes scores] by (simp add: top_predictions_def)
qed

theorem plot_prediction_grid_overlays_top_predictions_witness:
  "(0::int) \<le> 2 \<and> (2::int) * 2 = int (length four_images) \<and>
   list_all (\<lambda>img. predict_top two_ticks img \<noteq> None) four_images \<and>
   predict_top two_ticks (Array_image 1) = Some ([''tick''], [Box 0 0 10 10], [9 / 10]) \<and>
   predict_calls (fst (plot_prediction_grid two_ticks four_images (Some (2, 2)))) = [] \<and>
   patches_drawn (fst (plot_prediction_grid two_ticks four_images (Some (2, 2)))) =
     [Rectangle (0, 0) 10 10, Rectangle (0, 0) 10 10, Rectangle (0, 0) 10 10,
      Rectangle (0, 0) 10 10] \<and>
   texts_drawn (fst (plot_prediction_grid two_ticks four_images (Some (2, 2)))) =
     [(''tick'', 9 / 10), (''tick'', 9 / 10), (''tick'', 9 / 10), (''tick'', 9 / 10)] \<and>
   map (\<lambda>(label, b, score). b) (top_predictions two_ticks (Array_image 1)) = [Box 0 0 10 10]"
  using plot_prediction_grid_overlays_top_predictions
    [of 2 2 four_images two_ticks "Array_image 1" "[''tick'']" "[Box 0 0 10 10]" "[9 / 10]"]
  by (simp add: four_images_def two_ticks_def top_predictions_def round2_def)

text \<open>
  Claim C2 as stated fails: where \<^verbatim>\<open>predict\<close> finds two objects of one label, the grid
  calls \<^verbatim>\<open>predict_top\<close> only and overlays the one box that it returns.
\<close>

theorem plot_prediction_grid_full_detection_counterexample:
  "predict two_ticks (Array_image 1) =
     Some ([''tick'', ''tick''], [Box 0 0 10 10, Box 1 1 5 5], [9 / 10, 1 / 2]) \<and>
   plot_prediction_grid two_ticks [Array_image 1] None =
     ([Subplots 1 1, Predict_top_call (Array_image 1), Imshow Axes (Array_image 1),
       Add_patch Axes (Rectangle (0, 0) 10 10), Text Axes 5 (- 10) ''tick'' (9 / 10),
       Set_title Axes 1, Show], None)"
  by (simp add: two_ticks_def plot_prediction_grid_def subplots_def range_py_def grid_cell_def Let_def
        shown_image_def select_axes_def round2_def)

text \<open>
  Claim C7 at an input where it fails. \<^verbatim>\<open>ax.set_title\<close> is a statement of the loop
  over the predictions, so a cell whose image has no prediction gets no title: of two
  images, the first without a detection, only the second cell is titled (\<open>Image 2\<close>).
\<close>

theorem plot_prediction_grid_untitled_cell:
  "plot_prediction_grid nothing_in_first [Array_image 0, Array_image 1] None =
     ([Subplots 2 1,
       Predict_top_call (Array_image 0), Imshow (Axes_at 0) (Array_image 0),
       Predict_top_call (Array_image 1), Imshow (Axes_at 1) (Array_image 1),
       Add_patch (Axes_at 1) (Rectangle (0, 0) 10 10),
       Text (Axes_at 1) 5 (- 10) ''tick'' (9 / 10), Set_title (Axes_at 1) 2, Show], None) \<and>
   titles_set (fst (plot_prediction_grid nothing_in_first [Array_image 0, Array_image 1] None)) =
     [(Axes_at 1, 2)]"
  by (simp add: nothing_in_first_def plot_prediction_grid_def subplots_def range_py_def grid_cell_def Let_def
        shown_image_def select_axes_def round2_def upt_rec)

section \<open>Properties of \<^verbatim>\<open>detect_video\<close>\<close>

lemma annotate_frame_w: "frame_w (annotate f ps fr) = frame_w fr"
  by (induction ps arbitrary: fr) (auto simp: cv2_rectangle_def cv2_putText_def Let_def)

lemma annotate_frame_h: "frame_h (annotate f ps fr) = frame_h fr"
  by (induction ps arbitrary: fr) (auto simp: cv2_rectangle_def cv2_putText_def Let_def)

lemma annotate_pixels: "pixels (annotate f ps fr) = pixels fr"
  by (induction ps arbitrary: fr) (auto simp: cv2_rectangle_def cv2_putText_def Let_def)

lemma rectangles_append: "rectangles (xs @ ys) = rectangles xs @ rectangles ys"
  by (induction xs rule: rectangles.induct) simp_all

lemma annotate_rectangles:
  "rectangles (drawn (annotate f ps fr)) =
     rectangles (drawn fr) @ map (\<lambda>(label, b, score). scale_box f b) ps"
  by (induction ps arbitrary: fr)
    (auto simp: cv2_rectangle_def cv2_putText_def Let_def rectangles_append scale_box_def)

lemma frames_read_append: "frames_read (xs @ ys) = frames_read xs @ frames_read ys"
  by (induction xs rule: frames_read.induct) simp_all

lemma frames_written_append: "frames_written (xs @ ys) = frames_written xs @ frames_written ys"
  by (induction xs rule: frames_written.induct) simp_all

lemma frame_loop_written:
  "frame_loop model f wait_key n frs = (evs, None) \<Longrightarrow>
     frames_written evs =
       map (\<lambda>fr. annotate f (top_predictions model (transform_frame fr)) fr) (frames_read evs)"
proof (induction frs arbitrary: n evs)
  case Nil
  then show ?case by auto
next
  case (Cons fr frs)
  show ?case
  proof (cases "predict_top model (transform_frame fr)")
    case None
    with Cons.prems show ?thesis by simp
  next
    case (Some p)
    show ?thesis
    proof (cases "wait_key n AND 255 = ord_q")
      case True
      with Cons.prems Some show ?thesis
        by (auto simp: Let_def top_predictions_def)
    next
      case False
      with Cons.prems Some obtain evs' where
        rest: "frame_loop model f wait_key (Suc n) frs = (evs', None)"
        and evs: "evs = [Frame_read fr, Predict_top_frame (transform_frame fr),
                         Frame_written (annotate f (zip_preds p) fr), Key_polled (wait_key n)] @ evs'"
        by (auto simp: Let_def split: prod.splits)
      from Cons.IH [OF rest] show ?thesis
        by (simp add: evs top_predictions_def Some)
    qed
  qed
qed

lemma frame_loop_read_prefix:
  "frame_loop model f wait_key n frs = (evs, r) \<Longrightarrow>
     frames_read evs = take (length (frames_read evs)) frs"
proof (induction frs arbitrary: n evs r)
  case Nil
  then show ?case by auto
next
  case (Cons fr frs)
  show ?case
  proof (cases "predict_top model (transform_frame fr)")
    case None
    with Cons.prems show ?thesis by auto
  next
    case (Some p)
    show ?thesis
    proof (cases "wait_key n AND 255 = ord_q")
      case True
      with Cons.prems Some show ?thesis
        by (auto simp: Let_def)
    next
      case False
      with Cons.prems Some obtain evs' where
        rest: "frame_loop model f wait_key (Suc n) frs = (evs', r)"
        and evs: "evs = [Frame_read fr, Predict_top_frame (transform_frame fr),
                         Frame_written (annotate f (zip_preds p) fr), Key_polled (wait_key n)] @ evs'"
        by (auto simp: Let_def split: prod.splits)
      from Cons.IH [OF rest] show ?thesis
        by (simp add: evs)
    qed
  qed
qed

lemma frame_loop_reads_all:
  "frame_loop model f wait_key n frs = (evs, None) \<Longrightarrow>
     \<forall>k. wait_key k AND 255 \<noteq> ord_q \<Longrightarrow> frames_read evs = frs"
proof (induction frs arbitrary: n evs)
  case Nil
  then show ?case by auto
next
  case (Cons fr frs)
  show ?case
  proof (cases "predict_top model (transform_frame fr)")
    case None
    with Cons.prems show ?thesis by auto
  next
    case (Some p)
    from Cons.prems(2) have "wait_key n AND 255 \<noteq> ord_q" by blast
    with Cons.prems Some obtain evs' where
      rest: "frame_loop model f wait_key (Suc n) frs = (evs', None)"
      and evs: "evs = [Frame_read fr, Predict_top_frame (transform_frame fr),
                       Frame_written (annotate f (zip_preds p) fr), Key_polled (wait_key n)] @ evs'"
      by (auto simp: Let_def split: prod.splits)
    from Cons.IH [OF rest Cons.prems(2)] show ?thesis
      by (simp add: evs)
  qed
qed

lemma frame_loop_quit_is_last:
  "frame_loop model f wait_key n frs = (evs, r) \<Longrightarrow>
     evs = pre @ Key_polled k # post \<Longrightarrow> k AND 255 = ord_q \<Longrightarrow> post = [] \<and> r = None"
proof (induction frs arbitrary: n evs pre)
  case Nil
  then show ?case by (auto simp: append_eq_Cons_conv Cons_eq_append_conv)
next
  case (Cons fr frs)
  show ?case
  proof (cases "predict_top model (transform_frame fr)")
    case None
    with Cons.prems show ?thesis by (auto simp: append_eq_Cons_conv Cons_eq_append_conv)
  next
    case (Some p)
    show ?thesis
    proof (cases "wait_key n AND 255 = ord_q")
      case True
      with Cons.prems Some show ?thesis
        by (auto simp: Let_def append_eq_Cons_conv Cons_eq_append_conv)
    next
      case False
      with Cons.prems Some obtain evs' where
        rest: "frame_loop model f wait_key (Suc n) frs = (evs', r)"
        and evs: "evs = [Frame_read fr, Predict_top_frame (transform_frame fr),
                         Frame_written (annotate f (zip_preds p) fr), Key_polled (wait_key n)] @ evs'"
        by (auto simp: Let_def split: prod.splits)
      from evs Cons.prems(2,3) False obtain pre' where "evs' = pre' @ Key_polled k # post"
        by (auto simp: append_eq_Cons_conv Cons_eq_append_conv)
      from Cons.IH [OF rest this Cons.prems(3)] show ?thesis .
    qed
  qed
qed


lemma detect_video_returns:
  assumes "snd (detect_video model input_file wait_key fps) = None"
  shows "\<exists>evs. frame_loop model (scale_down_factor input_file) wait_key 0
                 (readable_frames input_file) = (evs, None) \<and>
               fst (detect_video model input_file wait_key fps) =
                 [Capture_created,
                  Writer_created (get_frame_width input_file) (get_frame_height input_file) fps]
                 @ evs @ [Capture_released, Writer_released, Windows_destroyed]"
  using assms by (auto simp: detect_video_def Let_def split: prod.splits option.splits)

lemma split_after_prefix:
  "xs @ rest = pre @ e # post \<Longrightarrow> e \<notin> set xs \<Longrightarrow>
     \<exists>pre'. pre = xs @ pre' \<and> rest = pre' @ e # post"
  by (induction xs arbitrary: pre) (auto simp: Cons_eq_append_conv)

lemma split_before_suffix:
  "ys @ zs = pre @ e # post \<Longrightarrow> e \<notin> set zs \<Longrightarrow>
     \<exists>post'. ys = pre @ e # post' \<and> post = post' @ zs"
  by (induction pre arbitrary: ys) (auto simp: append_eq_Cons_conv)

lemma split_middle:
  assumes "xs @ ys @ zs = pre @ e # post" and "e \<notin> set xs" and "e \<notin> set zs"
  shows "\<exists>pre' post'. ys = pre' @ e # post' \<and> pre = xs @ pre' \<and> post = post' @ zs"
proof -
  from split_after_prefix [OF assms(1,2)] obtain pre' where
    pre: "pre = xs @ pre'" and rest: "ys @ zs = pre' @ e # post"
    by blast
  from split_before_suffix [OF rest assms(3)] obtain post' where
    "ys = pre' @ e # post'" and "post = post' @ zs"
    by blast
  with pre show ?thesis by blast
qed

lemma detect_video_after_quit:
  assumes run: "fst (detect_video model input_file wait_key fps) = pre @ Key_polled k # post"
    and quit: "k AND 255 = ord_q"
  shows "post = [Capture_released, Writer_released, Windows_destroyed] \<and>
         snd (detect_video model input_file wait_key fps) = None"
proof -
  let ?start = "[Capture_created,
                 Writer_created (get_frame_width input_file) (get_frame_height input_file) fps]"
  obtain evs r where loop: "frame_loop model (scale_down_factor input_file) wait_key 0
                 (readable_frames input_file) = (evs, r)"
    by (cases "frame_loop model (scale_down_factor input_file) wait_key 0
                 (readable_frames input_file)") auto
  let ?tail = "case r of None \<Rightarrow> [Capture_released, Writer_released, Windows_destroyed]
                 | Some e \<Rightarrow> []"
  have "fst (detect_video model input_file wait_key fps) = ?start @ evs @ ?tail"
    by (simp add: detect_video_def Let_def loop split: option.split)
  with run have eq: "?start @ evs @ ?tail = pre @ Key_polled k # post" by simp
  have "Key_polled k \<notin> set ?start" by simp
  moreover have "Key_polled k \<notin> set ?tail" by (simp split: option.split)
  ultimately obtain pre' post' where evs: "evs = pre' @ Key_polled k # post'"
    and post: "post = post' @ ?tail"
    using split_middle [OF eq] by blast
  from frame_loop_quit_is_last [OF loop evs quit] have "post' = []" and r: "r = None"
    by simp_all
  with post show ?thesis
    by (simp add: detect_video_def Let_def loop)
qed

lemma frame_loop_raised:
  "frame_loop model f wait_key n frs = (evs, Some e) \<Longrightarrow>
     length (frames_read evs) = Suc (length (frames_written evs))"
proof (induction frs arbitrary: n evs)
  case Nil
  then show ?case by simp
next
  case (Cons fr frs)
  show ?case
  proof (cases "predict_top model (transform_frame fr)")
    case None
    with Cons.prems show ?thesis by auto
  next
    case (Some p)
    show ?thesis
    proof (cases "wait_key n AND 255 = ord_q")
      case True
      with Cons.prems Some show ?thesis
        by (simp add: Let_def)
    next
      case False
      with Cons.prems Some obtain evs' where
        rest: "frame_loop model f wait_key (Suc n) frs = (evs', Some e)"
        and evs: "evs = [Frame_read fr, Predict_top_frame (transform_frame fr),
                         Frame_written (annotate f (zip_preds p) fr), Key_polled (wait_key n)] @ evs'"
        by (auto simp: Let_def split: prod.splits)
      from Cons.IH [OF rest] show ?thesis
        by (simp add: evs)
    qed
  qed
qed

lemma detect_video_raises:
  assumes "snd (detect_video model input_file wait_key fps) = Some e"
  shows "\<exists>evs. frame_loop model (scale_down_factor input_file) wait_key 0
                 (readable_frames input_file) = (evs, Some e) \<and>
               fst (detect_video model input_file wait_key fps) =
                 [Capture_created,
                  Writer_created (get_frame_width input_file) (get_frame_height input_file) fps]
                 @ evs"
  using assms by (auto simp: detect_video_def Let_def split: prod.splits option.splits)

lemma video_800_factor: "scale_down_factor video_800 = 1"
  by (simp add: scale_down_factor_def scaled_size_def get_frame_height_def
        get_frame_width_def video_800_def)

lemma video_800_size: "get_frame_width video_800 = 1000" "get_frame_height video_800 = 800"
  by (simp_all add: get_frame_height_def get_frame_width_def video_800_def)

lemma video_800_frames:
  "readable_frames video_800 = [blank_frame 1000 800 0, blank_frame 1000 800 1]"
  by (simp add: readable_frames_def video_800_def)

lemma video_1600_factor: "scale_down_factor video_1600 = 2"
  by (simp add: scale_down_factor_def scaled_size_def get_frame_height_def
        get_frame_width_def video_1600_def)

lemma video_1600_size: "get_frame_width video_1600 = 2000" "get_frame_height video_1600 = 1600"
  by (simp_all add: get_frame_height_def get_frame_width_def video_1600_def)

lemma video_1600_frames:
  "readable_frames video_1600 =
     [blank_frame 2000 1600 0, blank_frame 2000 1600 1, blank_frame 2000 1600 2]"
  by (simp add: readable_frames_def video_1600_def)

text \<open>
  Claim C3, as amended. For every run of \<^verbatim>\<open>detect_video\<close> that returns, whether the
  source ran out of frames or \<^verbatim>\<open>q\<close> was pressed, as many frames are written as were
  read; the \<open>k\<close>-th frame written is the \<open>k\<close>-th frame read with the boxes and labels of
  its predictions drawn on it, and has its width and its height; the frames read are the
  first frames of the source, in order, and all of them when no key poll returns \<^verbatim>\<open>q\<close>.
  A run that an exception of a detector call ends has read one frame more than it has
  written.
\<close>

theorem detect_video_writes_every_frame_read:
  "(snd (detect_video model input_file wait_key fps) = None \<longrightarrow>
     length (frames_written (fst (detect_video model input_file wait_key fps))) =
       length (frames_read (fst (detect_video model input_file wait_key fps))) \<and>
     frames_written (fst (detect_video model input_file wait_key fps)) =
       map (\<lambda>fr. annotate (scale_down_factor input_file)
                    (top_predictions model (transform_frame fr)) fr)
           (frames_read (fst (detect_video model input_file wait_key fps))) \<and>
     map frame_w (frames_written (fst (detect_video model input_file wait_key fps))) =
       map frame_w (frames_read (fst (detect_video model input_file wait_key fps))) \<and>
     map frame_h (frames_written (fst (detect_video model input_file wait_key fps))) =
       map frame_h (frames_read (fst (detect_video model input_file wait_key fps))) \<and>
     frames_read (fst (detect_video model input_file wait_key fps)) =
       take (length (frames_read (fst (detect_video model input_file wait_key fps))))
            (readable_frames input_file) \<and>
     ((\<forall>n. wait_key n AND 255 \<noteq> ord_q) \<longrightarrow>
        frames_read (fst (detect_video model input_file wait_key fps)) =
          readable_frames input_file)) \<and>
   (snd (detect_video model input_file wait_key fps) = Some e \<longrightarrow>
      length (frames_read (fst (detect_video model input_file wait_key fps))) =
        Suc (length (frames_written (fst (detect_video model input_file wait_key fps)))))"
proof (rule conjI; rule impI)
  assume returns: "snd (detect_video model input_file wait_key fps) = None"
  let ?evs = "fst (detect_video model input_file wait_key fps)"
  let ?ann = "\<lambda>fr. annotate (scale_down_factor input_file)
                    (top_predictions model (transform_frame fr)) fr"
  from detect_video_returns [OF returns] obtain evs where
    loop: "frame_loop model (scale_down_factor input_file) wait_key 0
             (readable_frames input_file) = (evs, None)"
    and run: "?evs = [Capture_created,
                  Writer_created (get_frame_width input_file) (get_frame_height input_file) fps]
                 @ evs @ [Capture_released, Writer_released, Windows_destroyed]"
    by blast
  have rd: "frames_read ?evs = frames_read evs"
    by (simp add: run frames_read_append)
  have wr: "frames_written ?evs = frames_written evs"
    by (simp add: run frames_written_append)
  have written: "frames_written ?evs = map ?ann (frames_read ?evs)"
    using frame_loop_written [OF loop] by (simp add: rd wr)
  have len: "length (frames_written ?evs) = length (frames_read ?evs)"
    by (simp add: written)
  have w: "map frame_w (frames_written ?evs) = map frame_w (frames_read ?evs)"
    by (simp add: written annotate_frame_w)
  have h: "map frame_h (frames_written ?evs) = map frame_h (frames_read ?evs)"
    by (simp add: written annotate_frame_h)
  have prefix: "frames_read ?evs = take (length (frames_read ?evs)) (readable_frames input_file)"
    using frame_loop_read_prefix [OF loop] by (simp add: rd)
  have all: "(\<forall>n. wait_key n AND 255 \<noteq> ord_q) \<longrightarrow> frames_read ?evs = readable_frames input_file"
    using frame_loop_reads_all [OF loop] by (simp add: rd)
  from len written w h prefix all
  show "length (frames_written ?evs) = length (frames_read ?evs) \<and>
        frames_written ?evs = map ?ann (frames_read ?evs) \<and>
        map frame_w (frames_written ?evs) = map frame_w (frames_read ?evs) \<and>
        map frame_h (frames_written ?evs) = map frame_h (frames_read ?evs) \<and>
        frames_read ?evs = take (length (frames_read ?evs)) (readable_frames input_file) \<and>
        ((\<forall>n. wait_key n AND 255 \<noteq> ord_q) \<longrightarrow> frames_read ?evs = readable_frames input_file)"
    by blast
next
  assume raised: "snd (detect_video model input_file wait_key fps) = Some e"
  from detect_video_raises [OF raised] obtain evs where
    loop: "frame_loop model (scale_down_factor input_file) wait_key 0
             (readable_frames input_file) = (evs, Some e)"
    and run: "fst (detect_video model input_file wait_key fps) =
                [Capture_created,
                 Writer_created (get_frame_width input_file) (get_frame_height input_file) fps]
                @ evs"
    by blast
  from frame_loop_raised [OF loop]
  show "length (frames_read (fst (detect_video model input_file wait_key fps))) =
          Suc (length (frames_written (fst (detect_video model input_file wait_key fps))))"
    by (simp add: run frames_read_append frames_written_append)
qed

theorem detect_video_writes_every_frame_read_witness:
  "snd (detect_video one_tick video_1600 no_key 30) = None \<and>
   (\<forall>n. no_key n AND 255 \<noteq> ord_q) \<and>
   frames_read (fst (detect_video one_tick video_1600 no_key 30)) = readable_frames video_1600 \<and>
   length (frames_written (fst (detect_video one_tick video_1600 no_key 30))) = 3 \<and>
   map frame_w (frames_written (fst (detect_video one_tick video_1600 no_key 30))) =
     [2000, 2000, 2000] \<and>
   map frame_h (frames_written (fst (detect_video one_tick video_1600 no_key 30))) =
     [1600, 1600, 1600] \<and>
   snd (detect_video raising_detector video_1600 no_key 30) = Some DetectorError \<and>
   length (frames_read (fst (detect_video raising_detector video_1600 no_key 30))) =
     Suc (length (frames_written (fst (detect_video raising_detector video_1600 no_key 30))))"
proof -
  let ?evs = "fst (detect_video one_tick video_1600 no_key 30)"
  have ret: "snd (detect_video one_tick video_1600 no_key 30) = None"
    by (simp add: detect_video_def one_tick_def video_1600_frames no_key_def ord_q_def Let_def)
  have keys: "\<forall>n. no_key n AND 255 \<noteq> ord_q"
    by (simp add: no_key_def ord_q_def)
  from detect_video_writes_every_frame_read [of one_tick video_1600 no_key 30] ret keys
  have rd: "frames_read ?evs = readable_frames video_1600"
    and len: "length (frames_written ?evs) = length (frames_read ?evs)"
    and w: "map frame_w (frames_written ?evs) = map frame_w (frames_read ?evs)"
    and h: "map frame_h (frames_written ?evs) = map frame_h (frames_read ?evs)"
    by blast+
  have raised: "snd (detect_video raising_detector video_1600 no_key 30) = Some DetectorError"
    by (simp add: detect_video_def raising_detector_def video_1600_frames)
  from detect_video_writes_every_frame_read
         [of raising_detector video_1600 no_key 30 DetectorError] raised
  have one_more:
    "length (frames_read (fst (detect_video raising_detector video_1600 no_key 30))) =
     Suc (length (frames_written (fst (detect_video raising_detector video_1600 no_key 30))))"
    by blast
  show ?thesis
    using ret keys raised one_more
    by (simp add: len w h rd video_1600_frames blank_frame_def)
qed

text \<open>
  Claim C3 as stated fails for a run that no quit signal ends: on a source of two frames,
  with no key pressed and a detector that raises on the second frame, two frames are read
  and one is written.
\<close>

theorem detect_video_detector_exception_run_counterexample:
  "detect_video raises_on_second video_800 no_key 30 =
     ([Capture_created, Writer_created 1000 800 30,
       Frame_read (blank_frame 1000 800 0),
       Predict_top_frame (transform_frame (blank_frame 1000 800 0)),
       Frame_written
         (annotate 1 [(''tick'', Box 10 20 110 220, 9 / 10)] (blank_frame 1000 800 0)),
       Key_polled (- 1),
       Frame_read (blank_frame 1000 800 1),
       Predict_top_frame (transform_frame (blank_frame 1000 800 1))],
      Some DetectorError) \<and>
   (- 1 :: int) AND 255 \<noteq> ord_q \<and>
   length (frames_read (fst (detect_video raises_on_second video_800 no_key 30))) = 2 \<and>
   length (frames_written (fst (detect_video raises_on_second video_800 no_key 30))) = 1"
proof -
  have differ: "transform_frame (blank_frame 1000 800 0) \<noteq> transform_frame (blank_frame 1000 800 1)"
    by (simp add: transform_frame_def blank_frame_def)
  have run: "detect_video raises_on_second video_800 no_key 30 =
     ([Capture_created, Writer_created 1000 800 30,
       Frame_read (blank_frame 1000 800 0),
       Predict_top_frame (transform_frame (blank_frame 1000 800 0)),
       Frame_written
         (annotate 1 [(''tick'', Box 10 20 110 220, 9 / 10)] (blank_frame 1000 800 0)),
       Key_polled (- 1),
       Frame_read (blank_frame 1000 800 1),
       Predict_top_frame (transform_frame (blank_frame 1000 800 1))],
      Some DetectorError)"
    using differ
    by (simp add: detect_video_def video_800_factor video_800_size video_800_frames
          raises_on_second_def no_key_def ord_q_def Let_def del: annotate.simps)
  have key: "(- 1 :: int) AND 255 \<noteq> ord_q"
    by (simp add: ord_q_def)
  from key show ?thesis
    by (simp add: run del: annotate.simps)
qed

text \<open>
  Claim C4, as amended. The downscale factor is \<open>min (height, width) / 800\<close>. In a run
  that returns, every frame written is the frame read with its predictions drawn by the
  loop \<open>annotate\<close>, called with that factor; the loop draws, for every prediction, the
  rectangle of the box with each coordinate multiplied by the factor. Dividing a drawn
  coordinate by a factor other than 0 gives back the detector's coordinate: the frame handed
  to the detector was scaled down by that division, so the drawn box is in the pixels of the
  original frame. The predictions hold every returned box when the call returns as many
  labels and scores as boxes.
\<close>

theorem detect_video_rescales_boxes:
  "scale_down_factor input_file =
     of_int (min (get_frame_height input_file) (get_frame_width input_file)) / 800 \<and>
   (snd (detect_video model input_file wait_key fps) = None \<longrightarrow>
      frames_written (fst (detect_video model input_file wait_key fps)) =
        map (\<lambda>fr. annotate (scale_down_factor input_file)
                     (top_predictions model (transform_frame fr)) fr)
            (frames_read (fst (detect_video model input_file wait_key fps)))) \<and>
   rectangles (drawn (annotate f ps fr)) =
     rectangles (drawn fr) @
     map (\<lambda>(label, b, score). Box (x_min b * f) (y_min b * f) (x_max b * f) (y_max b * f)) ps \<and>
   (f \<noteq> 0 \<longrightarrow>
      x_min (scale_box f b) / f = x_min b \<and> y_min (scale_box f b) / f = y_min b \<and>
      x_max (scale_box f b) / f = x_max b \<and> y_max (scale_box f b) / f = y_max b) \<and>
   (predict_top model x = Some (labels, boxes, scores) \<and>
    length labels = length boxes \<and> length scores = length boxes \<longrightarrow>
      map (\<lambda>(label, b, score). b) (top_predictions model x) = boxes)"
proof (intro conjI impI)
  show "scale_down_factor input_file =
          of_int (min (get_frame_height input_file) (get_frame_width input_file)) / 800"
    by (simp add: scale_down_factor_def scaled_size_def)
next
  assume returns: "snd (detect_video model input_file wait_key fps) = None"
  from detect_video_returns [OF returns] obtain evs where
    loop: "frame_loop model (scale_down_factor input_file) wait_key 0
             (readable_frames input_file) = (evs, None)"
    and run: "fst (detect_video model input_file wait_key fps) =
                [Capture_created,
                 Writer_created (get_frame_width input_file) (get_frame_height input_file) fps]
                @ evs @ [Capture_released, Writer_released, Windows_destroyed]"
    by blast
  show "frames_written (fst (detect_video model input_file wait_key fps)) =
        map (\<lambda>fr. annotate (scale_down_factor input_file)
                     (top_predictions model (transform_frame fr)) fr)
            (frames_read (fst (detect_video model input_file wait_key fps)))"
    using frame_loop_written [OF loop]
    by (simp add: run frames_read_append frames_written_append)
next
  show "rectangles (drawn (annotate f ps fr)) =
     rectangles (drawn fr) @
     map (\<lambda>(label, b, score). Box (x_min b * f) (y_min b * f) (x_max b * f) (y_max b * f)) ps"
    by (simp add: annotate_rectangles scale_box_def)
next
  assume "f \<noteq> 0"
  then show "x_min (scale_box f b) / f = x_min b" and "y_min (scale_box f b) / f = y_min b"
    and "x_max (scale_box f b) / f = x_max b" and "y_max (scale_box f b) / f = y_max b"
    by (simp_all add: scale_box_def)
next
  assume "predict_top model x = Some (labels, boxes, scores) \<and>
          length labels = length boxes \<and> length scores = length boxes"
  then show "map (\<lambda>(label, b, score). b) (top_predictions model x) = boxes"
    using zip_preds_boxes [of labels boxes scores] by (simp add: top_predictions_def)
qed

theorem detect_video_rescales_boxes_witness:
  "snd (detect_video one_tick video_1600 no_key 30) = None \<and>
   scale_down_factor video_1600 = 2 \<and> scale_down_factor video_1600 \<noteq> 0 \<and>
   predict_top one_tick (transform_frame (blank_frame 2000 1600 0)) =
     Some ([''tick''], [Box 10 20 110 220], [9 / 10]) \<and>
   rectangles (drawn (annotate (scale_down_factor video_1600)
       (top_predictions one_tick (transform_frame (blank_frame 2000 1600 0)))
       (blank_frame 2000 1600 0))) = [Box 20 40 220 440] \<and>
   map (\<lambda>fr. rectangles (drawn fr))
     (frames_written (fst (detect_video one_tick video_1600 no_key 30))) =
     [[Box 20 40 220 440], [Box 20 40 220 440], [Box 20 40 220 440]] \<and>
   x_min (scale_box (scale_down_factor video_1600) (Box 10 20 110 220)) /
     scale_down_factor video_1600 = 10"
proof -
  have ret: "snd (detect_video one_tick video_1600 no_key 30) = None"
    by (simp add: detect_video_def one_tick_def video_1600_def no_key_def readable_frames_def
          ord_q_def Let_def)
  have two: "scale_down_factor video_1600 = 2"
    by (simp add: scale_down_factor_def scaled_size_def get_frame_height_def
          get_frame_width_def video_1600_def)
  have top: "\<And>x. predict_top one_tick x = Some ([''tick''], [Box 10 20 110 220], [9 / 10])"
    by (simp add: one_tick_def)
  have rd: "frames_read (fst (detect_video one_tick video_1600 no_key 30)) =
               [blank_frame 2000 1600 0, blank_frame 2000 1600 1, blank_frame 2000 1600 2]"
    by (simp add: detect_video_def one_tick_def video_1600_def no_key_def readable_frames_def
          ord_q_def Let_def)
  from detect_video_rescales_boxes
         [of video_1600 one_tick no_key 30 "scale_down_factor video_1600"
             "top_predictions one_tick (transform_frame (blank_frame 2000 1600 0))"
             "blank_frame 2000 1600 0" "Box 10 20 110 220"
             "transform_frame (blank_frame 2000 1600 0)" "[''tick'']" "[Box 10 20 110 220]"
             "[9 / 10]"]
       ret two top rd
  show ?thesis
    by (simp add: top_predictions_def blank_frame_def cv2_rectangle_def cv2_putText_def
          scale_box_def Let_def)
qed

text \<open>
  Claim C4 as stated fails where it says that a box is rescaled by the inverse of the
  factor: for a source of 2000 by 1600 the factor is 2, and the box \<open>(10, 20, 110, 220)\<close> is
  drawn at \<open>(20, 40, 220, 440)\<close>, its coordinates times 2, not times 1/2.
\<close>

theorem detect_video_inverse_factor_counterexample:
  "scale_down_factor video_1600 = 2 \<and>
   rectangles (drawn (annotate (scale_down_factor video_1600)
       [(''tick'', Box 10 20 110 220, 9 / 10)] (blank_frame 2000 1600 0))) =
     [Box 20 40 220 440] \<and>
   scale_box (1 / scale_down_factor video_1600) (Box 10 20 110 220) = Box 5 10 55 110 \<and>
   rectangles (drawn (annotate (scale_down_factor video_1600)
       [(''tick'', Box 10 20 110 220, 9 / 10)] (blank_frame 2000 1600 0))) \<noteq>
     [scale_box (1 / scale_down_factor video_1600) (Box 10 20 110 220)]"
  by (simp add: video_1600_factor blank_frame_def cv2_rectangle_def cv2_putText_def
        scale_box_def Let_def)

text \<open>
  Claim C5. The factor is 1 exactly when the shorter side of the source is 800, and then
  \<^verbatim>\<open>box *= scale_down_factor\<close> leaves every box as the detector returned it: the
  rectangles drawn on a frame have the detector's coordinates.
\<close>

theorem detect_video_factor_one_is_identity:
  "(scale_down_factor input_file = 1) =
     (min (get_frame_height input_file) (get_frame_width input_file) = 800) \<and>
   (scale_down_factor input_file = 1 \<longrightarrow>
      scale_box (scale_down_factor input_file) b = b \<and>
      rectangles (drawn (annotate (scale_down_factor input_file) ps fr)) =
        rectangles (drawn fr) @ map (\<lambda>(label, b, score). b) ps)"
proof (intro conjI impI)
  show "(scale_down_factor input_file = 1) =
          (min (get_frame_height input_file) (get_frame_width input_file) = 800)"
  proof -
    have "(scale_down_factor input_file = 1) =
          ((of_int (min (get_frame_height input_file) (get_frame_width input_file)) :: rat) =
             of_int 800)"
      by (simp add: scale_down_factor_def scaled_size_def)
    also have "\<dots> = (min (get_frame_height input_file) (get_frame_width input_file) = 800)"
      by (simp only: of_int_eq_iff)
    finally show ?thesis .
  qed
next
  assume one: "scale_down_factor input_file = 1"
  have id: "\<And>b. scale_box 1 b = b"
    by (simp add: scale_box_def)
  show "scale_box (scale_down_factor input_file) b = b"
    by (simp add: one id)
  have "map (\<lambda>(label :: string, b, score :: scalar). scale_box 1 b) ps =
        map (\<lambda>(label, b, score). b) ps"
    by (rule map_cong) (auto simp: id)
  then show "rectangles (drawn (annotate (scale_down_factor input_file) ps fr)) =
        rectangles (drawn fr) @ map (\<lambda>(label, b, score). b) ps"
    by (simp add: one annotate_rectangles)
qed

theorem detect_video_factor_one_is_identity_witness:
  "scale_down_factor video_800 = 1 \<and>
   scale_box (scale_down_factor video_800) (Box 10 20 110 220) = Box 10 20 110 220 \<and>
   rectangles (drawn (annotate (scale_down_factor video_800)
       [(''tick'', Box 10 20 110 220, 9 / 10)] (blank_frame 1000 800 0))) =
     [Box 10 20 110 220]"
proof -
  have one: "scale_down_factor video_800 = 1"
    by (simp add: scale_down_factor_def scaled_size_def get_frame_height_def
          get_frame_width_def video_800_def)
  from detect_video_factor_one_is_identity
         [of video_800 "Box 10 20 110 220" "[(''tick'', Box 10 20 110 220, 9 / 10)]"
             "blank_frame 1000 800 0"] one
  have "scale_box (scale_down_factor video_800) (Box 10 20 110 220) = Box 10 20 110 220"
    and "rectangles (drawn (annotate (scale_down_factor video_800)
           [(''tick'', Box 10 20 110 220, 9 / 10)] (blank_frame 1000 800 0))) =
         rectangles (drawn (blank_frame 1000 800 0)) @
         map (\<lambda>(label, b, score). b) [(''tick'', Box 10 20 110 220, 9 / 10 :: scalar)]"
    by blast+
  with one show ?thesis
    by (simp add: blank_frame_def del: annotate.simps)
qed

text \<open>
  Claim C8. For a source that cannot be opened, \<^verbatim>\<open>detect_video\<close> raises nothing: it
  creates the capture and the writer (with frame size \<open>0 \<times> 0\<close>), its first read fails, it
  releases both and returns. No frame is read, none is written, the detector is not called.
\<close>

theorem detect_video_unopened_source:
  "\<not> is_opened input_file \<longrightarrow>
     detect_video model input_file wait_key fps =
       ([Capture_created, Writer_created 0 0 fps, Read_failed,
         Capture_released, Writer_released, Windows_destroyed], None) \<and>
     frames_read (fst (detect_video model input_file wait_key fps)) = [] \<and>
     frames_written (fst (detect_video model input_file wait_key fps)) = []"
  by (simp add: detect_video_def get_frame_width_def get_frame_height_def readable_frames_def)

theorem detect_video_unopened_source_witness:
  "\<not> is_opened missing_video \<and>
   detect_video one_tick missing_video no_key 30 =
     ([Capture_created, Writer_created 0 0 30, Read_failed,
       Capture_released, Writer_released, Windows_destroyed], None)"
  using detect_video_unopened_source [of missing_video one_tick no_key 30]
  by (simp add: missing_video_def)

text \<open>
  Claim C9, as amended. The capture and the writer are created first in every call. On
  every path on which the call returns (the source has no more frames, or \<^verbatim>\<open>q\<close> was
  pressed) the last three calls release the capture, release the writer and close the
  windows. After a key poll that returns \<^verbatim>\<open>q\<close> only these three calls follow: no frame
  is read any more.
\<close>

theorem detect_video_releases_on_return:
  "(\<exists>evs. fst (detect_video model input_file wait_key fps) =
       Capture_created #
       Writer_created (get_frame_width input_file) (get_frame_height input_file) fps # evs) \<and>
   (snd (detect_video model input_file wait_key fps) = None \<longrightarrow>
      (\<exists>evs. fst (detect_video model input_file wait_key fps) =
         evs @ [Capture_released, Writer_released, Windows_destroyed])) \<and>
   (fst (detect_video model input_file wait_key fps) = pre @ Key_polled k # post \<and>
    k AND 255 = ord_q \<longrightarrow>
      post = [Capture_released, Writer_released, Windows_destroyed] \<and>
      (\<forall>e \<in> set post. \<not> is_read e))"
proof (intro conjI impI)
  show "\<exists>evs. fst (detect_video model input_file wait_key fps) =
       Capture_created #
       Writer_created (get_frame_width input_file) (get_frame_height input_file) fps # evs"
    by (simp add: detect_video_def Let_def split: prod.split option.split)
next
  assume "snd (detect_video model input_file wait_key fps) = None"
  from detect_video_returns [OF this]
  show "\<exists>evs. fst (detect_video model input_file wait_key fps) =
         evs @ [Capture_released, Writer_released, Windows_destroyed]"
    by (metis append.assoc)
next
  assume q: "fst (detect_video model input_file wait_key fps) = pre @ Key_polled k # post \<and>
             k AND 255 = ord_q"
  then have post: "post = [Capture_released, Writer_released, Windows_destroyed]"
    using detect_video_after_quit [of model input_file wait_key fps pre k post] by simp
  then show "post = [Capture_released, Writer_released, Windows_destroyed]" .
  from post show "\<forall>e \<in> set post. \<not> is_read e" by simp
qed

theorem detect_video_releases_on_return_witness:
  "snd (detect_video one_tick video_1600 q_on_first_frame 30) = None \<and>
   fst (detect_video one_tick video_1600 q_on_first_frame 30) =
     [Capture_created, Writer_created 2000 1600 30, Frame_read (blank_frame 2000 1600 0),
      Predict_top_frame (transform_frame (blank_frame 2000 1600 0)),
      Frame_written
        (annotate 2 [(''tick'', Box 10 20 110 220, 9 / 10)] (blank_frame 2000 1600 0))]
     @ Key_polled 113 # [Capture_released, Writer_released, Windows_destroyed] \<and>
   (113 :: int) AND 255 = ord_q \<and>
   list_all (\<lambda>e. \<not> is_read e) [Capture_released, Writer_released, Windows_destroyed]"
proof -
  let ?pre = "[Capture_created, Writer_created 2000 1600 30, Frame_read (blank_frame 2000 1600 0),
      Predict_top_frame (transform_frame (blank_frame 2000 1600 0)),
      Frame_written
        (annotate 2 [(''tick'', Box 10 20 110 220, 9 / 10)] (blank_frame 2000 1600 0))]"
  let ?post = "[Capture_released, Writer_released, Windows_destroyed]"
  have run: "detect_video one_tick video_1600 q_on_first_frame 30 =
               (?pre @ Key_polled 113 # ?post, None)"
    by (simp add: detect_video_def video_1600_factor video_1600_size video_1600_frames
          one_tick_def q_on_first_frame_def ord_q_def Let_def del: annotate.simps)
  have q: "(113 :: int) AND 255 = ord_q"
    by (simp add: ord_q_def)
  have fst_run: "fst (detect_video one_tick video_1600 q_on_first_frame 30) =
                   ?pre @ Key_polled 113 # ?post"
    and snd_run: "snd (detect_video one_tick video_1600 q_on_first_frame 30) = None"
    by (simp_all only: run fst_conv snd_conv)
  from detect_video_releases_on_return
         [of one_tick video_1600 q_on_first_frame 30 ?pre 113 ?post] fst_run q
  have "\<forall>e \<in> set ?post. \<not> is_read e"
    by blast
  then have "list_all (\<lambda>e. \<not> is_read e) ?post"
    by (simp only: list_all_iff)
  with fst_run snd_run q show ?thesis
    by blast
qed

text \<open>
  Claim C9 as stated fails on the exit it names last: when a detector call raises, the
  exception leaves \<^verbatim>\<open>detect_video\<close> at once, and neither the capture nor the writer is
  released.
\<close>

theorem detect_video_detector_error_counterexample:
  "detect_video raising_detector video_1600 no_key 30 =
     ([Capture_created, Writer_created 2000 1600 30, Frame_read (blank_frame 2000 1600 0),
       Predict_top_frame (transform_frame (blank_frame 2000 1600 0))], Some DetectorError) \<and>
   Capture_released \<notin> set (fst (detect_video raising_detector video_1600 no_key 30)) \<and>
   Writer_released \<notin> set (fst (detect_video raising_detector video_1600 no_key 30))"
  by (simp add: detect_video_def raising_detector_def video_1600_size video_1600_frames)

end
